theory Spec2Isabelle
  imports
    Complex_Main
    "HOL-Library.Char_ord"
    "HOL-Library.List_Lexorder"
    "HOL-Library.Product_Lexorder"
begin

section \<open>The usage dashboard of \<^verbatim>\<open>data_viz.py\<close>\<close>

text \<open>
  The script loads one spreadsheet into a pandas table, normalises it (\<^verbatim>\<open>load_data\<close>),
  checks the required columns, filters the rows by the sidebar's selections and
  aggregates the filtered rows into four indicators and three chart tables.

  Scope of the model. A cell of the column \<^verbatim>\<open>date\<close> is a parsed timestamp; the range
  limit of the library's timestamps is not modelled. A cell of \<^verbatim>\<open>duration_minutes\<close> is
  a number, and a cell of the text columns \<^verbatim>\<open>game\<close>, \<^verbatim>\<open>device\<close> and \<^verbatim>\<open>area\<close> is a
  string, or the cell is blank: a blank spreadsheet cell is read as the missing value
  NaN, written \<open>None\<close> here. Numbers are rationals, which the 64-bit floats are among;
  what the library's floating-point means compute from them is a parameter of the
  model. Strings are byte lists; the library's string order (by code point) is the
  lexicographic order on the UTF-8 bytes.
\<close>

subsection \<open>Device names\<close>

text \<open>\<^verbatim>\<open>name.startswith(abbrev)\<close>\<close>

definition startswith :: "string \<Rightarrow> string \<Rightarrow> bool" where
  "startswith name abbrev = (take (length abbrev) name = abbrev)"

text \<open>\<^verbatim>\<open>name.replace(old, new)\<close> for single characters.\<close>

definition replace :: "char \<Rightarrow> char \<Rightarrow> string \<Rightarrow> string" where
  "replace old new name = map (\<lambda>c. if c = old then new else c) name"

text \<open>The dictionary of line 30, in its insertion order, which is the order of the loop.\<close>

definition abbrev_map :: "(string \<times> string) list" where
  "abbrev_map = [(''BL'', ''Bioness Left''), (''BR'', ''Bioness Right'')]"

text \<open>
  The loop of lines 35 to 38 over the items of the dictionary: the first abbreviation
  that is a proper prefix of the name returns; when none does, the loop ends without a
  result.
\<close>

fun abbrev_loop :: "(string \<times> string) list \<Rightarrow> string \<Rightarrow> string option" where
  "abbrev_loop [] name = None"
| "abbrev_loop ((abbrev, full_name) # items) name =
     (if startswith name abbrev \<and> length name > length abbrev
      then (let suffix = drop (length abbrev) name in Some (full_name @ '' '' @ suffix))
      else abbrev_loop items name)"

definition clean_device_name :: "string \<Rightarrow> string" where
  "clean_device_name name =
     (case abbrev_loop abbrev_map name of
        Some friendly \<Rightarrow> friendly
      | None \<Rightarrow> replace (CHR ''_'') (CHR '' '') name)"

subsection \<open>Timestamps\<close>

text \<open>
  A parsed cell of the \<^verbatim>\<open>date\<close> column: the calendar fields that \<^verbatim>\<open>.dt.year\<close>,
  \<^verbatim>\<open>.dt.month\<close> and \<^verbatim>\<open>.dt.day\<close> read, and the time of day in nanoseconds.
\<close>

record timestamp =
  dt_year :: int
  dt_month :: nat
  dt_day :: nat
  dt_time :: nat

definition is_leap :: "int \<Rightarrow> bool" where
  "is_leap y = (y mod 4 = 0 \<and> (y mod 100 \<noteq> 0 \<or> y mod 400 = 0))"

definition days_in_month :: "int \<Rightarrow> nat \<Rightarrow> nat" where
  "days_in_month y m =
     (if m = 2 then (if is_leap y then 29 else 28)
      else if m = 4 \<or> m = 6 \<or> m = 9 \<or> m = 11 then 30 else 31)"

text \<open>What the parser produces: a date of the calendar and a time within the day.\<close>

definition valid_timestamp :: "timestamp \<Rightarrow> bool" where
  "valid_timestamp t =
     (1 \<le> dt_month t \<and> dt_month t \<le> 12 \<and>
      1 \<le> dt_day t \<and> dt_day t \<le> days_in_month (dt_year t) (dt_month t) \<and>
      dt_time t < 86400 * 10 ^ 9)"

text \<open>
  \<^verbatim>\<open>t + pd.DateOffset(years=n)\<close>: the library adds \<open>n\<close> to the year, keeps the month
  and the time of day, and keeps the day unless the month of the new year is shorter,
  where it takes that month's last day.
\<close>

definition DateOffset_years :: "nat \<Rightarrow> timestamp \<Rightarrow> timestamp" where
  "DateOffset_years n t =
     (let y = dt_year t + int n
      in t\<lparr>dt_year := y, dt_day := min (dt_day t) (days_in_month y (dt_month t))\<rparr>)"

text \<open>\<^verbatim>\<open>.dt.strftime('%B')\<close>: the full month name; a timestamp's month is 1 to 12.\<close>

definition month_names :: "string list" where
  "month_names =
     [''January'', ''February'', ''March'', ''April'', ''May'', ''June'', ''July'',
      ''August'', ''September'', ''October'', ''November'', ''December'']"

definition strftime_B :: "timestamp \<Rightarrow> string" where
  "strftime_B t = month_names ! (dt_month t - 1)"

text \<open>\<^verbatim>\<open>.dt.date\<close>: the calendar date without the time of day, ordered as dates are.\<close>

type_synonym pydate = "int \<times> nat \<times> nat"

definition dt_date :: "timestamp \<Rightarrow> pydate" where
  "dt_date t = (dt_year t, dt_month t, dt_day t)"

subsection \<open>Tables\<close>

text \<open>A text cell; \<open>None\<close> is the missing value that a blank cell is read as.\<close>

type_synonym label = "string option"

text \<open>
  One row, in the columns the script reads. \<open>columns\<close> of the frame lists the names of
  the columns the table has; the field of a column that the table lacks is never read,
  because every path that would read it fails first.
\<close>

record row =
  date :: timestamp
  game :: label
  duration_minutes :: "rat option"
  device :: label
  area :: label
  month :: string
  month_num :: nat

record frame =
  columns :: "string list"
  rows :: "row list"

datatype error =
    Stop
  | KeyError string
  | AttributeError

text \<open>A Python float: a number, or NaN.\<close>

datatype number = NaN | Num rat

text \<open>
  The two means are computed by the library in 64-bit floating point, each by a routine
  of its own: the number that \<^verbatim>\<open>Series.mean\<close> and the number that the \<^verbatim>\<open>mean\<close> of a
  \<^verbatim>\<open>groupby\<close> compute from a non-empty list of numbers are these two parameters.
\<close>

record float64 =
  series_mean :: "rat list \<Rightarrow> rat"
  group_mean :: "rat list \<Rightarrow> rat"

subsection \<open>Library operations on columns\<close>

text \<open>\<^verbatim>\<open>str.lower\<close> and \<^verbatim>\<open>str.strip\<close>, on ASCII letters and ASCII white space.\<close>

definition str_lower :: "string \<Rightarrow> string" where
  "str_lower s =
     map (\<lambda>c. case map_of (zip ''ABCDEFGHIJKLMNOPQRSTUVWXYZ'' ''abcdefghijklmnopqrstuvwxyz'') c of
                 Some l \<Rightarrow> l
               | None \<Rightarrow> c) s"

definition isspace :: "char \<Rightarrow> bool" where
  "isspace c =
     (c \<in> set [CHR 0x09, CHR 0x0A, CHR 0x0B, CHR 0x0C, CHR 0x0D,
               CHR 0x1C, CHR 0x1D, CHR 0x1E, CHR 0x1F, CHR 0x20])"

definition str_strip :: "string \<Rightarrow> string" where
  "str_strip s = rev (dropWhile isspace (rev (dropWhile isspace s)))"

text \<open>\<^verbatim>\<open>dropna\<close>: the values of a column that are not missing, in row order.\<close>

primrec dropna :: "'a option list \<Rightarrow> 'a list" where
  "dropna [] = []"
| "dropna (x # xs) = (case x of None \<Rightarrow> dropna xs | Some v \<Rightarrow> v # dropna xs)"

text \<open>\<^verbatim>\<open>unique\<close>: the distinct values in the order of their first appearance.\<close>

definition unique :: "'a list \<Rightarrow> 'a list" where
  "unique xs = rev (remdups (rev xs))"

text \<open>The number of rows holding each distinct value that is not missing.\<close>

definition counts :: "'a option list \<Rightarrow> ('a \<times> nat) list" where
  "counts col = (let xs = dropna col in map (\<lambda>v. (v, count_list xs v)) (unique xs))"

text \<open>
  \<^verbatim>\<open>Series.value_counts()\<close> with its defaults \<^verbatim>\<open>sort=True, ascending=False,
  dropna=True\<close>: missing values are not counted, the most frequent value comes first.
\<close>

definition value_counts :: "'a option list \<Rightarrow> ('a \<times> nat) list" where
  "value_counts col = sort_key (\<lambda>(v, n). - int n) (counts col)"

text \<open>
  \<^verbatim>\<open>Series.mode()\<close> with its default \<^verbatim>\<open>dropna=True\<close>: the values that occur most
  often among those that are not missing, sorted ascending; empty when every value is
  missing.
\<close>

definition mode :: "('a::linorder) option list \<Rightarrow> 'a list" where
  "mode col =
     (let cs = counts col; most = foldr max (map snd cs) 0
      in sort (map fst (filter (\<lambda>(v, n). n = most) cs)))"

text \<open>\<^verbatim>\<open>series[0]\<close> on the result of \<^verbatim>\<open>mode\<close>, whose labels are 0, 1, ...\<close>

definition getitem0 :: "'a list \<Rightarrow> error + 'a" where
  "getitem0 s = (case s of [] \<Rightarrow> Inl (KeyError ''0'') | v # _ \<Rightarrow> Inr v)"

text \<open>
  \<^verbatim>\<open>mean()\<close> of a column or of a group, with its default \<^verbatim>\<open>skipna=True\<close>: the missing
  values are left out, \<open>routine\<close> computes the mean of the others in their
  row order, and the mean of no value is NaN.
\<close>

definition mean :: "(rat list \<Rightarrow> rat) \<Rightarrow> rat option list \<Rightarrow> number" where
  "mean routine col = (case dropna col of [] \<Rightarrow> NaN | x # xs \<Rightarrow> Num (routine (x # xs)))"

text \<open>\<^verbatim>\<open>Series.isin(values)\<close> and the element-wise \<^verbatim>\<open>&\<close> of two boolean columns.\<close>

definition isin :: "'a list \<Rightarrow> 'a list \<Rightarrow> bool list" where
  "isin col values = map (\<lambda>x. x \<in> set values) col"

definition series_and :: "bool list \<Rightarrow> bool list \<Rightarrow> bool list" where
  "series_and a b = map2 (\<and>) a b"

text \<open>\<^verbatim>\<open>df[mask]\<close>: the rows whose entry of the mask is true, in their order.\<close>

definition getitem_mask :: "'a list \<Rightarrow> bool list \<Rightarrow> 'a list" where
  "getitem_mask df m = map fst (filter snd (zip df m))"

text \<open>
  The format \<^verbatim>\<open>:.1f\<close> of a float: NaN is printed as \<^verbatim>\<open>nan\<close>; the digits of a number
  depend on its floating-point value and are left to the parameter \<open>digits\<close>.
\<close>

definition format_1f :: "(rat \<Rightarrow> string) \<Rightarrow> number \<Rightarrow> string" where
  "format_1f digits x = (case x of NaN \<Rightarrow> ''nan'' | Num q \<Rightarrow> digits q)"

subsection \<open>Loading\<close>

text \<open>\<^verbatim>\<open>df[name] = ...\<close> on the header: a new column goes to the end.\<close>

definition setitem_column :: "string \<Rightarrow> string list \<Rightarrow> string list" where
  "setitem_column name cols = (if name \<in> set cols then cols else cols @ [name])"

text \<open>Lines 18 to 24 on one row.\<close>

definition shift_date :: "row \<Rightarrow> row" where
  "shift_date r =
     (let d = DateOffset_years 1 (date r)
      in r\<lparr>date := d, month := strftime_B d, month_num := dt_month d\<rparr>)"

text \<open>
  Line 42: \<^verbatim>\<open>apply\<close> calls \<^verbatim>\<open>clean_device_name\<close> on every cell; on a missing value,
  which is a float, \<^verbatim>\<open>name.startswith\<close> raises.
\<close>

fun apply_clean_device_name :: "row list \<Rightarrow> error + row list" where
  "apply_clean_device_name [] = Inr []"
| "apply_clean_device_name (r # rs) =
     (case device r of
        None \<Rightarrow> Inl AttributeError
      | Some name \<Rightarrow>
          (case apply_clean_device_name rs of
             Inl e \<Rightarrow> Inl e
           | Inr rs' \<Rightarrow> Inr (r\<lparr>device := Some (clean_device_name name)\<rparr> # rs')))"

text \<open>\<^verbatim>\<open>load_data\<close>, on the table that \<^verbatim>\<open>read_excel\<close> returned.\<close>

definition load_data :: "frame \<Rightarrow> error + frame" where
  "load_data file =
     (let df = file\<lparr>columns := map (\<lambda>name. str_strip (str_lower name)) (columns file)\<rparr>;
          df = (if ''date'' \<in> set (columns df)
                then df\<lparr>columns := setitem_column ''month_num'' (setitem_column ''month'' (columns df)),
                        rows := map shift_date (rows df)\<rparr>
                else df)
      in if ''device'' \<in> set (columns df)
         then (case apply_clean_device_name (rows df) of
                 Inl e \<Rightarrow> Inl e
               | Inr rs \<Rightarrow> Inr (df\<lparr>rows := rs\<rparr>))
         else Inr df)"

subsection \<open>Filtering\<close>

text \<open>What the widgets of the sidebar return (lines 84 to 89).\<close>

record sidebar =
  start_date :: pydate
  end_date :: pydate
  selected_game :: "label list"
  selected_device :: "label list"
  selected_area :: "label list"

text \<open>Lines 92 to 99.\<close>

definition mask :: "sidebar \<Rightarrow> row list \<Rightarrow> bool list" where
  "mask w df =
     series_and
       (series_and
         (series_and
           (series_and
             (map (\<lambda>d. start_date w \<le> d) (map dt_date (map date df)))
             (map (\<lambda>d. d \<le> end_date w) (map dt_date (map date df))))
           (isin (map game df) (selected_game w)))
         (isin (map device df) (selected_device w)))
       (isin (map area df) (selected_area w))"

definition filtered_df :: "sidebar \<Rightarrow> row list \<Rightarrow> row list" where
  "filtered_df w df = getitem_mask df (mask w df)"

subsection \<open>Indicators and charts\<close>

text \<open>
  Lines 105 to 115, on the filtered rows. \<^verbatim>\<open>sum()\<close> leaves the missing values out as
  \<^verbatim>\<open>mean()\<close> does; the sum is taken in exact arithmetic.
\<close>

definition total_sessions :: "row list \<Rightarrow> nat" where
  "total_sessions fdf = length fdf"

definition total_duration :: "row list \<Rightarrow> rat" where
  "total_duration fdf = sum_list (dropna (map duration_minutes fdf))"

definition avg_duration :: "float64 \<Rightarrow> row list \<Rightarrow> number" where
  "avg_duration fp fdf = mean (series_mean fp) (map duration_minutes fdf)"

definition top_game :: "row list \<Rightarrow> error + string" where
  "top_game fdf = (if fdf \<noteq> [] then getitem0 (mode (map game fdf)) else Inr ''N/A'')"

definition top_device :: "row list \<Rightarrow> error + string" where
  "top_device fdf = (if fdf \<noteq> [] then getitem0 (mode (map device fdf)) else Inr ''N/A'')"

text \<open>
  Lines 134 and 135: \<^verbatim>\<open>groupby\<close> lists the distinct pairs of keys in ascending order
  and takes the mean of each group; \<^verbatim>\<open>sort_values\<close> then orders by the month number.
\<close>

definition monthly_dur :: "float64 \<Rightarrow> row list \<Rightarrow> (nat \<times> string \<times> number) list" where
  "monthly_dur fp fdf =
     (let keys = sort (remdups (map (\<lambda>r. (month_num r, month r)) fdf));
          grouped =
            map (\<lambda>k. (fst k, snd k,
                       mean (group_mean fp)
                         (map duration_minutes
                            (filter (\<lambda>r. (month_num r, month r) = k) fdf)))) keys
      in sort_key fst grouped)"

text \<open>Lines 148 and 156.\<close>

definition game_counts :: "row list \<Rightarrow> (string \<times> nat) list" where
  "game_counts fdf = value_counts (map game fdf)"

definition device_counts :: "row list \<Rightarrow> (string \<times> nat) list" where
  "device_counts fdf = value_counts (map device fdf)"

subsection \<open>The page\<close>

text \<open>
  What one run of the script shows: the four indicators, the numbers before their
  formatting, and the tables of the three charts.
\<close>

record dashboard =
  kpi1 :: rat
  kpi2 :: number
  kpi3 :: string
  kpi4 :: string
  fig_dur :: "(nat \<times> string \<times> number) list"
  fig_game :: "(string \<times> nat) list"
  fig_device :: "(string \<times> nat) list"

definition required_cols :: "string list" where
  "required_cols = [''date'', ''duration_minutes'']"

text \<open>Lines 101 to 160, on the filtered rows.\<close>

definition show_dashboard :: "float64 \<Rightarrow> row list \<Rightarrow> error + dashboard" where
  "show_dashboard fp fdf =
     (case top_game fdf of
        Inl e \<Rightarrow> Inl e
      | Inr tg \<Rightarrow>
          (case top_device fdf of
             Inl e \<Rightarrow> Inl e
           | Inr td \<Rightarrow>
               Inr \<lparr>kpi1 = total_duration fdf / 60, kpi2 = avg_duration fp fdf,
                    kpi3 = tg, kpi4 = td, fig_dur = monthly_dur fp fdf,
                    fig_game = game_counts fdf, fig_device = device_counts fdf\<rparr>))"

text \<open>
  Lines 71 to 160, for a file that was read: \<^verbatim>\<open>st.stop()\<close> ends the run after the
  message; reading a column that the table lacks raises.
\<close>

definition script :: "float64 \<Rightarrow> frame \<Rightarrow> sidebar \<Rightarrow> error + dashboard" where
  "script fp file w =
     (case load_data file of
        Inl e \<Rightarrow> Inl e
      | Inr df \<Rightarrow>
          if \<not> list_all (\<lambda>col. col \<in> set (columns df)) required_cols then Inl Stop
          else if ''game'' \<notin> set (columns df) then Inl (KeyError ''game'')
          else if ''device'' \<notin> set (columns df) then Inl (KeyError ''device'')
          else if ''area'' \<notin> set (columns df) then Inl (KeyError ''area'')
          else show_dashboard fp (filtered_df w (rows df)))"

subsection \<open>Example tables\<close>

text \<open>
  A sheet of four sessions at midnight, the table that \<^verbatim>\<open>load_data\<close> makes of it,
  and a choice of the sidebar that selects every row of that table.
\<close>

definition session :: "pydate \<Rightarrow> label \<Rightarrow> rat option \<Rightarrow> label \<Rightarrow> label \<Rightarrow> row" where
  "session d g minutes dev a =
     \<lparr>date = \<lparr>dt_year = fst d, dt_month = fst (snd d), dt_day = snd (snd d), dt_time = 0\<rparr>,
      game = g, duration_minutes = minutes, device = dev, area = a,
      month = [], month_num = 0\<rparr>"

definition example_file :: frame where
  "example_file =
     \<lparr>columns = [''Date'', ''Game'', ''Duration_Minutes'', ''Device'', '' Area ''],
      rows = [session (2024, 12, 5) (Some ''A'') (Some 30) (Some ''BL1'') (Some ''Gym''),
              session (2024, 1, 15) (Some ''B'') (Some 60) (Some ''BR2'') (Some ''Gym''),
              session (2024, 3, 10) (Some ''A'') (Some 90) (Some ''Bioness_Left'') (Some ''Hall''),
              session (2024, 3, 20) None (Some 45) (Some ''BL_1'') (Some ''Hall'')]\<rparr>"

definition example_loaded :: frame where
  "example_loaded =
     \<lparr>columns = [''date'', ''game'', ''duration_minutes'', ''device'', ''area'',
                 ''month'', ''month_num''],
      rows = [(session (2025, 12, 5) (Some ''A'') (Some 30) (Some ''Bioness Left 1'') (Some ''Gym''))
                \<lparr>month := ''December'', month_num := 12\<rparr>,
              (session (2025, 1, 15) (Some ''B'') (Some 60) (Some ''Bioness Right 2'') (Some ''Gym''))
                \<lparr>month := ''January'', month_num := 1\<rparr>,
              (session (2025, 3, 10) (Some ''A'') (Some 90) (Some ''Bioness Left'') (Some ''Hall''))
                \<lparr>month := ''March'', month_num := 3\<rparr>,
              (session (2025, 3, 20) None (Some 45) (Some ''Bioness Left _1'') (Some ''Hall''))
                \<lparr>month := ''March'', month_num := 3\<rparr>]\<rparr>"

definition example_sidebar :: sidebar where
  "example_sidebar =
     \<lparr>start_date = (2025, 1, 1), end_date = (2025, 12, 31),
      selected_game = [Some ''A'', Some ''B'', None],
      selected_device = [Some ''Bioness Left 1'', Some ''Bioness Right 2'', Some ''Bioness Left'',
                         Some ''Bioness Left _1''],
      selected_area = [Some ''Gym'', Some ''Hall'']\<rparr>"

text \<open>Rows that differ in the game only, and the example sheet without its duration column.\<close>

definition game_rows :: "string list \<Rightarrow> row list" where
  "game_rows gs =
     map (\<lambda>g. session (2025, 3, 10) (Some g) (Some 30) (Some ''Bioness Left 1'') (Some ''Gym'')) gs"

definition incomplete_file :: frame where
  "incomplete_file = example_file\<lparr>columns := [''Date'', ''Game'', ''Device'', ''Area'']\<rparr>"

definition incomplete_loaded :: frame where
  "incomplete_loaded =
     example_loaded\<lparr>columns := [''date'', ''game'', ''device'', ''area'', ''month'', ''month_num'']\<rparr>"


text \<open>
  The mean without rounding, and the two routines where they do not round, as on the
  examples: their durations, sums and means are 64-bit floats.
\<close>

definition exact_mean :: "rat list \<Rightarrow> rat" where
  "exact_mean xs = sum_list xs / of_nat (length xs)"

definition exact :: float64 where
  "exact = \<lparr>series_mean = exact_mean, group_mean = exact_mean\<rparr>"

subsection \<open>The tie-break as the specification words it\<close>

text \<open>
  Section 4.3 of the specification: the first value met in row order among the values
  of maximal frequency.
\<close>

definition spec_top :: "'a list \<Rightarrow> 'a option" where
  "spec_top col = find (\<lambda>v. list_all (\<lambda>u. count_list col u \<le> count_list col v) col) col"

section \<open>Properties\<close>

subsection \<open>Lemmas about the library operations\<close>

lemma set_unique: "set (unique xs) = set xs"
  by (simp add: unique_def)

lemma distinct_unique: "distinct (unique xs)"
  by (simp add: unique_def)

lemma set_dropna: "set (dropna col) = {v. Some v \<in> set col}"
  by (induction col) (auto split: option.splits)

lemma count_list_dropna: "count_list (dropna col) v = count_list col (Some v)"
  by (induction col) (auto split: option.splits)

lemma length_dropna: "length (dropna col) = length (filter (\<lambda>x. x \<noteq> None) col)"
  by (induction col) (auto split: option.splits)

lemma sum_list_insort_key:
  "sum_list (map g (insort_key f x xs)) = g x + sum_list (map g xs)"
  for g :: "'a \<Rightarrow> nat"
  by (induction xs) auto

lemma sum_list_sort_key:
  "sum_list (map g (sort_key f xs)) = sum_list (map g xs)"
  for g :: "'a \<Rightarrow> nat"
  by (induction xs) (auto simp: sum_list_insort_key)

lemma sum_counts: "sum_list (map snd (counts col)) = length (dropna col)"
proof -
  have "sum_list (map snd (counts col)) = sum_list (map (count_list (dropna col)) (unique (dropna col)))"
    by (simp add: counts_def Let_def o_def)
  also have "\<dots> = sum (count_list (dropna col)) (set (dropna col))"
    using sum_list_distinct_conv_sum_set [OF distinct_unique, of "count_list (dropna col)" "dropna col"]
    by (simp add: set_unique)
  also have "\<dots> = length (dropna col)"
    by (rule sum_count_set) simp_all
  finally show ?thesis .
qed

lemma sum_value_counts:
  "sum_list (map snd (value_counts col)) = length (filter (\<lambda>x. x \<noteq> None) col)"
  by (simp add: value_counts_def sum_list_sort_key sum_counts length_dropna)

lemma foldr_max_upper: "n \<in> set ns \<Longrightarrow> n \<le> foldr max ns (0::nat)"
  by (induction ns) auto

lemma foldr_max_mem: "ns \<noteq> [] \<Longrightarrow> foldr max ns (0::nat) \<in> set ns"
proof (induction ns)
  case Nil
  then show ?case by simp
next
  case (Cons n ns)
  then show ?case
    by (cases "ns = []") (auto simp: max_def)
qed

lemma map_snd_counts:
  "map snd (counts col) = map (count_list (dropna col)) (unique (dropna col))"
  by (simp add: counts_def Let_def o_def)

lemma mode_eq:
  "mode col =
     sort (filter (\<lambda>v. count_list (dropna col) v = foldr max (map snd (counts col)) 0)
             (unique (dropna col)))"
proof -
  have "map fst (filter (\<lambda>(v, n). n = m) (map (\<lambda>v. (v, c v)) l)) = filter (\<lambda>v. c v = m) l"
    for m :: nat and c :: "'a \<Rightarrow> nat" and l
    by (induction l) auto
  then show ?thesis
    by (simp add: mode_def Let_def counts_def)
qed

lemma set_mode_most:
  "set (mode col) =
     {v \<in> set (dropna col).
        count_list (dropna col) v = foldr max (map snd (counts col)) 0}"
  by (simp add: mode_eq set_unique)

lemma set_mode:
  "set (mode col) =
     {v. Some v \<in> set col \<and> (\<forall>u. count_list col (Some u) \<le> count_list col (Some v))}"
proof -
  define xs where "xs = dropna col"
  define most where "most = foldr max (map snd (counts col)) 0"
  have cnt: "count_list xs v = count_list col (Some v)" for v
    by (simp add: xs_def count_list_dropna)
  have mem: "v \<in> set xs \<longleftrightarrow> Some v \<in> set col" for v
    by (simp add: xs_def set_dropna)
  have snd_counts: "set (map snd (counts col)) = count_list xs ` set xs"
    by (simp add: map_snd_counts xs_def set_unique)
  have upper: "count_list xs u \<le> most" for u
  proof (cases "u \<in> set xs")
    case True
    then have "count_list xs u \<in> set (map snd (counts col))"
      using snd_counts by blast
    then show ?thesis
      unfolding most_def by (rule foldr_max_upper)
  next
    case False
    then show ?thesis by simp
  qed
  have attained: "\<exists>v \<in> set xs. count_list xs v = most" if "xs \<noteq> []"
  proof -
    from that have "map snd (counts col) \<noteq> []"
      using snd_counts by (metis empty_is_image set_empty)
    then have "most \<in> set (map snd (counts col))"
      unfolding most_def by (rule foldr_max_mem)
    with snd_counts show ?thesis by auto
  qed
  have "set (mode col) = {v \<in> set xs. count_list xs v = most}"
    by (simp add: set_mode_most xs_def most_def)
  also have "\<dots> = {v. v \<in> set xs \<and> (\<forall>u. count_list xs u \<le> count_list xs v)}"
  proof (intro Collect_cong conj_cong refl iffI allI)
    fix v u
    assume "count_list xs v = most"
    with upper [of u] show "count_list xs u \<le> count_list xs v" by simp
  next
    fix v
    assume v: "v \<in> set xs" and "\<forall>u. count_list xs u \<le> count_list xs v"
    moreover from v have "xs \<noteq> []" by auto
    from attained [OF this] obtain m where "count_list xs m = most" by blast
    ultimately have "most \<le> count_list xs v" by metis
    with upper [of v] show "count_list xs v = most" by simp
  qed
  finally show ?thesis
    by (simp add: cnt mem)
qed

lemma mode_nonempty:
  assumes "Some x \<in> set col"
  shows "mode col \<noteq> []"
proof -
  define xs where "xs = dropna col"
  have "x \<in> set xs" using assms by (simp add: xs_def set_dropna)
  then have "set (map snd (counts col)) \<noteq> {}"
    by (auto simp: map_snd_counts xs_def set_unique)
  then have "map snd (counts col) \<noteq> []"
    by (simp del: set_map)
  from foldr_max_mem [OF this] obtain v where
    "v \<in> set xs" "count_list xs v = foldr max (map snd (counts col)) 0"
    by (auto simp: map_snd_counts xs_def set_unique)
  then have "v \<in> set (mode col)"
    by (simp add: set_mode_most xs_def)
  then show ?thesis by auto
qed

lemma sorted_mode: "sorted (mode col)"
  by (simp add: mode_def Let_def)

lemma getitem0_mode:
  assumes "Some x \<in> set col"
  shows "\<exists>v. getitem0 (mode col) = Inr v \<and> Some v \<in> set col \<and>
           (\<forall>u. count_list col (Some u) \<le> count_list col (Some v)) \<and>
           (\<forall>u. Some u \<in> set col \<and> count_list col (Some u) = count_list col (Some v) \<longrightarrow> v \<le> u)"
proof -
  from mode_nonempty [OF assms] obtain v vs where m: "mode col = v # vs"
    by (cases "mode col") auto
  then have "v \<in> set (mode col)" by simp
  then have v: "Some v \<in> set col" "\<forall>u. count_list col (Some u) \<le> count_list col (Some v)"
    by (simp_all add: set_mode)
  have "v \<le> u" if "Some u \<in> set col" "count_list col (Some u) = count_list col (Some v)" for u
  proof -
    from that v have "u \<in> set (mode col)" by (simp add: set_mode)
    with m sorted_mode [of col] show ?thesis by auto
  qed
  with v m show ?thesis
    by (auto simp: getitem0_def)
qed

lemma mode_all_missing: "(\<forall>x \<in> set col. x = None) \<Longrightarrow> mode col = []"
  using set_mode [of col] by (cases "mode col") auto

lemma not_leap_next_year: "is_leap y \<Longrightarrow> \<not> is_leap (y + 1)"
  unfolding is_leap_def by presburger

lemma days_in_month_next_year:
  "1 \<le> d \<Longrightarrow> d \<le> days_in_month y m \<Longrightarrow>
   min d (days_in_month (y + 1) m) = (if m = 2 \<and> d = 29 then 28 else d)"
  using not_leap_next_year [of y] by (auto simp: days_in_month_def split: if_splits)

lemma DateOffset_years_1:
  assumes "valid_timestamp t"
  shows "DateOffset_years 1 t =
           t\<lparr>dt_year := dt_year t + 1,
             dt_day := (if dt_month t = 2 \<and> dt_day t = 29 then 28 else dt_day t)\<rparr>"
    and "valid_timestamp (DateOffset_years 1 t)"
proof -
  from assms have d: "1 \<le> dt_day t" "dt_day t \<le> days_in_month (dt_year t) (dt_month t)"
    by (simp_all add: valid_timestamp_def)
  show "DateOffset_years 1 t =
           t\<lparr>dt_year := dt_year t + 1,
             dt_day := (if dt_month t = 2 \<and> dt_day t = 29 then 28 else dt_day t)\<rparr>"
    using days_in_month_next_year [OF d] by (simp add: DateOffset_years_def Let_def)
  show "valid_timestamp (DateOffset_years 1 t)"
    using assms by (auto simp: valid_timestamp_def DateOffset_years_def Let_def days_in_month_def)
qed

lemma apply_clean_device_name_Inr:
  "apply_clean_device_name rs = Inr rs' \<Longrightarrow>
   rs' = map (\<lambda>r. r\<lparr>device := map_option clean_device_name (device r)\<rparr>) rs \<and>
   None \<notin> set (map device rs)"
  by (induction rs arbitrary: rs') (auto split: option.splits sum.splits)

lemma load_data_rows:
  assumes "load_data file = Inr df"
    and "''date'' \<in> set (map (\<lambda>name. str_strip (str_lower name)) (columns file))"
  shows "map date (rows df) = map (\<lambda>r. DateOffset_years 1 (date r)) (rows file)"
    and "map month (rows df) = map (\<lambda>r. strftime_B (DateOffset_years 1 (date r))) (rows file)"
    and "map month_num (rows df) = map (\<lambda>r. dt_month (DateOffset_years 1 (date r))) (rows file)"
  using assms
  by (auto simp: load_data_def Let_def shift_date_def split: if_splits sum.splits
      dest!: apply_clean_device_name_Inr)

lemma getitem_mask_map: "getitem_mask xs (map P xs) = filter P xs"
  unfolding getitem_mask_def by (induction xs) auto

lemma series_and_map: "series_and (map P xs) (map Q xs) = map (\<lambda>x. P x \<and> Q x) xs"
  unfolding series_and_def by (induction xs) auto

lemma filtered_df_filter:
  "filtered_df w df =
     filter (\<lambda>r. start_date w \<le> dt_date (date r) \<and> dt_date (date r) \<le> end_date w \<and>
                 game r \<in> set (selected_game w) \<and> device r \<in> set (selected_device w) \<and>
                 area r \<in> set (selected_area w)) df"
proof -
  have "mask w df =
     map (\<lambda>r. (((start_date w \<le> dt_date (date r) \<and> dt_date (date r) \<le> end_date w) \<and>
                 game r \<in> set (selected_game w)) \<and> device r \<in> set (selected_device w)) \<and>
                 area r \<in> set (selected_area w)) df"
    by (simp add: mask_def isin_def series_and_map)
  then show ?thesis
    by (simp add: filtered_df_def getitem_mask_map conj_assoc)
qed

subsection \<open>The example tables, evaluated\<close>

lemmas load_defs =
  load_data_def Let_def str_strip_def str_lower_def isspace_def setitem_column_def
  shift_date_def DateOffset_years_def days_in_month_def is_leap_def strftime_B_def
  month_names_def clean_device_name_def abbrev_map_def startswith_def replace_def

lemma load_example_file: "load_data example_file = Inr example_loaded"
  by (simp add: example_file_def example_loaded_def session_def load_defs)

lemma filtered_example:
  "filtered_df example_sidebar (rows example_loaded) = rows example_loaded"
  by (simp add: filtered_df_filter example_sidebar_def example_loaded_def session_def dt_date_def)

lemma valid_example: "valid_timestamp (date (rows example_file ! 2))"
  by (simp add: example_file_def session_def valid_timestamp_def days_in_month_def)

lemma count_list_append: "count_list (xs @ ys) x = count_list xs x + count_list ys x"
  by (induction xs) auto

subsection \<open>Device names\<close>

lemma clean_device_name_BL:
  "clean_device_name (''BL'' @ c # s) = ''Bioness Left '' @ c # s"
  by (simp add: clean_device_name_def abbrev_map_def startswith_def)

lemma clean_device_name_BR:
  "clean_device_name (''BR'' @ c # s) = ''Bioness Right '' @ c # s"
  by (simp add: clean_device_name_def abbrev_map_def startswith_def)

lemma clean_device_name_other:
  assumes "\<nexists>c s. name = ''BL'' @ c # s" and "\<nexists>c s. name = ''BR'' @ c # s"
  shows "clean_device_name name = replace (CHR ''_'') (CHR '' '') name"
proof -
  have "\<not> (startswith name p \<and> length name > length p)"
    if "p = ''BL'' \<or> p = ''BR''" for p
  proof
    assume h: "startswith name p \<and> length name > length p"
    from that have len: "length p = 2" by auto
    from h len have "take 2 name = p" and ne: "drop 2 name \<noteq> []"
      by (simp_all add: startswith_def)
    with append_take_drop_id [of 2 name] have "name = p @ drop 2 name"
      by simp
    with ne obtain c s where "name = p @ c # s"
      by (cases "drop 2 name") auto
    with that assms show False by blast
  qed
  from this [of "''BL''"] this [of "''BR''"]
  have "abbrev_loop abbrev_map name = None"
    unfolding abbrev_map_def by simp
  then show ?thesis
    by (simp add: clean_device_name_def)
qed

text \<open>
  C3. A device string that starts with \<^verbatim>\<open>BL\<close> and has at least one more character
  becomes \<^verbatim>\<open>Bioness Left\<close>, a space and the rest; otherwise one that starts with
  \<^verbatim>\<open>BR\<close> and has at least one more character becomes \<^verbatim>\<open>Bioness Right\<close>, a space and
  the rest; every other string, the bare \<^verbatim>\<open>BL\<close> and \<^verbatim>\<open>BR\<close> among them, has each
  underscore replaced by a space. So \<^verbatim>\<open>BL1\<close>, \<^verbatim>\<open>BR2\<close>, \<^verbatim>\<open>BL\<close> and \<^verbatim>\<open>Bioness_Left\<close>
  become \<^verbatim>\<open>Bioness Left 1\<close>, \<^verbatim>\<open>Bioness Right 2\<close>, \<^verbatim>\<open>BL\<close> and \<^verbatim>\<open>Bioness Left\<close>.
\<close>

theorem C3_clean_device_name:
  "clean_device_name (''BL'' @ c # s) = ''Bioness Left '' @ c # s \<and>
   clean_device_name (''BR'' @ c # s) = ''Bioness Right '' @ c # s \<and>
   ((\<nexists>c s. name = ''BL'' @ c # s) \<and> (\<nexists>c s. name = ''BR'' @ c # s) \<longrightarrow>
      clean_device_name name = map (\<lambda>c. if c = CHR ''_'' then CHR '' '' else c) name) \<and>
   clean_device_name ''BL1'' = ''Bioness Left 1'' \<and>
   clean_device_name ''BR2'' = ''Bioness Right 2'' \<and>
   clean_device_name ''BL'' = ''BL'' \<and>
   clean_device_name ''BR'' = ''BR'' \<and>
   clean_device_name ''Bioness_Left'' = ''Bioness Left''"
proof -
  have "clean_device_name name = map (\<lambda>c. if c = CHR ''_'' then CHR '' '' else c) name"
    if "\<nexists>c s. name = ''BL'' @ c # s" and "\<nexists>c s. name = ''BR'' @ c # s"
    using clean_device_name_other [OF that] by (simp add: replace_def)
  moreover have "clean_device_name ''BL1'' = ''Bioness Left 1''"
    and "clean_device_name ''BR2'' = ''Bioness Right 2''"
    and "clean_device_name ''BL'' = ''BL''"
    and "clean_device_name ''BR'' = ''BR''"
    and "clean_device_name ''Bioness_Left'' = ''Bioness Left''"
    by (simp_all add: clean_device_name_def abbrev_map_def startswith_def replace_def)
  ultimately show ?thesis
    using clean_device_name_BL [of c s] clean_device_name_BR [of c s] by blast
qed

theorem C3_clean_device_name_witness:
  "(\<nexists>c s. ''Lumo_Floor_2'' = ''BL'' @ c # s) \<and> (\<nexists>c s. ''Lumo_Floor_2'' = ''BR'' @ c # s) \<and>
   clean_device_name ''Lumo_Floor_2'' = ''Lumo Floor 2''"
proof -
  have h: "(\<nexists>c s. ''Lumo_Floor_2'' = ''BL'' @ c # s) \<and> (\<nexists>c s. ''Lumo_Floor_2'' = ''BR'' @ c # s)"
    by simp
  from C3_clean_device_name [of _ _ "''Lumo_Floor_2''"] h
  have "clean_device_name ''Lumo_Floor_2'' =
      map (\<lambda>c. if c = CHR ''_'' then CHR '' '' else c) ''Lumo_Floor_2''"
    by blast
  with h show ?thesis
    by simp
qed

text \<open>
  C10. When an abbreviation of the dictionary is followed by a non-empty suffix, the
  result is the friendly name, a space and the suffix as it is: the underscores of the
  suffix are all kept, so a cleaned name can still hold underscores; \<^verbatim>\<open>BL_1\<close> becomes
  \<^verbatim>\<open>Bioness Left _1\<close>.
\<close>

theorem C10_suffix_verbatim:
  assumes "(abbrev, full_name) \<in> set abbrev_map" and "suffix \<noteq> []"
  shows "clean_device_name (abbrev @ suffix) = full_name @ '' '' @ suffix \<and>
     count_list (clean_device_name (abbrev @ suffix)) (CHR ''_'') = count_list suffix (CHR ''_'') \<and>
     set (map fst abbrev_map) = {''BL'', ''BR''} \<and>
     clean_device_name ''BL_1'' = ''Bioness Left _1'' \<and>
     CHR ''_'' \<in> set (clean_device_name ''BL_1'')"
proof -
  from assms(2) obtain c s where suffix: "suffix = c # s"
    by (cases suffix) auto
  from assms(1) have "abbrev = ''BL'' \<and> full_name = ''Bioness Left'' \<or>
      abbrev = ''BR'' \<and> full_name = ''Bioness Right''"
    by (auto simp: abbrev_map_def)
  then have eq: "clean_device_name (abbrev @ suffix) = full_name @ '' '' @ suffix"
    using clean_device_name_BL [of c s] clean_device_name_BR [of c s] suffix by auto
  have "count_list (full_name @ '' '') (CHR ''_'') = 0"
    using assms(1) by (auto simp: abbrev_map_def)
  then have "count_list (full_name @ '' '' @ suffix) (CHR ''_'') = count_list suffix (CHR ''_'')"
    using count_list_append [of "full_name @ '' ''" suffix "CHR ''_''"] by simp
  moreover have "clean_device_name ''BL_1'' = ''Bioness Left _1''"
    using clean_device_name_BL [of "CHR ''_''" "''1''"] by simp
  moreover have "set (map fst abbrev_map) = {''BL'', ''BR''}"
    by (simp add: abbrev_map_def)
  ultimately show ?thesis
    using eq by simp
qed

theorem C10_suffix_verbatim_witness:
  "(''BR'', ''Bioness Right'') \<in> set abbrev_map \<and> ''_2_b'' \<noteq> [] \<and>
   clean_device_name ''BR_2_b'' = ''Bioness Right _2_b'' \<and>
   count_list (clean_device_name ''BR_2_b'') (CHR ''_'') = 2"
proof -
  have h1: "(''BR'', ''Bioness Right'') \<in> set abbrev_map"
    by (simp add: abbrev_map_def)
  have h2: "''_2_b'' \<noteq> []"
    by simp
  from C10_suffix_verbatim [OF h1 h2] h1 show ?thesis
    by simp
qed

subsection \<open>Loading\<close>

text \<open>
  C4. In a loaded table with a \<^verbatim>\<open>date\<close> column, the date of every row whose date was
  parsed is the date of the sheet one year later: the year plus one, the same month, time
  of day and day (the last day of February for 29 February, which the next year lacks).
  \<^verbatim>\<open>month_num\<close> is the month of the shifted date, from 1 to 12, and \<^verbatim>\<open>month\<close> is its
  full name. A row dated 2024-03-10 gets the date 2025-03-10, \<^verbatim>\<open>March\<close> and 3.
\<close>

theorem C4_date_shift:
  assumes "load_data file = Inr df"
    and "''date'' \<in> set (map (\<lambda>name. str_strip (str_lower name)) (columns file))"
    and "i < length (rows file)"
    and "valid_timestamp (date (rows file ! i))"
  shows "length (rows df) = length (rows file) \<and>
     date (rows df ! i) =
       (date (rows file ! i))
         \<lparr>dt_year := dt_year (date (rows file ! i)) + 1,
          dt_day := (if dt_month (date (rows file ! i)) = 2 \<and> dt_day (date (rows file ! i)) = 29
                     then 28 else dt_day (date (rows file ! i)))\<rparr> \<and>
     valid_timestamp (date (rows df ! i)) \<and>
     month_num (rows df ! i) = dt_month (date (rows df ! i)) \<and>
     1 \<le> month_num (rows df ! i) \<and> month_num (rows df ! i) \<le> 12 \<and>
     month (rows df ! i) = month_names ! (month_num (rows df ! i) - 1) \<and>
     (dt_date (date (rows file ! i)) = (2024, 3, 10) \<longrightarrow>
        dt_date (date (rows df ! i)) = (2025, 3, 10) \<and>
        month (rows df ! i) = ''March'' \<and> month_num (rows df ! i) = 3)"
proof -
  let ?t = "date (rows file ! i)"
  note maps = load_data_rows [OF assms(1,2)]
  from maps(1) have len: "length (rows df) = length (rows file)"
    by (rule map_eq_imp_length_eq)
  with assms(3) have i: "i < length (rows df)" by simp
  have "date (rows df ! i) = map date (rows df) ! i"
    using i by simp
  also have "\<dots> = DateOffset_years 1 ?t"
    using assms(3) by (simp add: maps(1))
  finally have d: "date (rows df ! i) = DateOffset_years 1 ?t" .
  have "month (rows df ! i) = map month (rows df) ! i"
    using i by simp
  also have "\<dots> = strftime_B (DateOffset_years 1 ?t)"
    using assms(3) by (simp add: maps(2))
  finally have m: "month (rows df ! i) = strftime_B (date (rows df ! i))"
    by (simp add: d)
  have "month_num (rows df ! i) = map month_num (rows df) ! i"
    using i by simp
  also have "\<dots> = dt_month (DateOffset_years 1 ?t)"
    using assms(3) by (simp add: maps(3))
  finally have n: "month_num (rows df ! i) = dt_month (date (rows df ! i))"
    by (simp add: d)
  note shifted = DateOffset_years_1 [OF assms(4)]
  from shifted(1) have d': "date (rows df ! i) =
       ?t\<lparr>dt_year := dt_year ?t + 1,
          dt_day := (if dt_month ?t = 2 \<and> dt_day ?t = 29 then 28 else dt_day ?t)\<rparr>"
    unfolding d .
  from shifted(2) have v: "valid_timestamp (date (rows df ! i))"
    unfolding d .
  then have range: "1 \<le> month_num (rows df ! i)" "month_num (rows df ! i) \<le> 12"
    by (simp_all add: n valid_timestamp_def)
  have march: "dt_date (date (rows df ! i)) = (2025, 3, 10) \<and>
        month (rows df ! i) = ''March'' \<and> month_num (rows df ! i) = 3"
    if "dt_date ?t = (2024, 3, 10)"
    using that by (simp add: m n strftime_B_def month_names_def d' dt_date_def)
  have name: "month (rows df ! i) = month_names ! (month_num (rows df ! i) - 1)"
    unfolding m n strftime_B_def ..
  from len d' v n range name march show ?thesis
    by blast
qed

theorem C4_date_shift_witness:
  "load_data example_file = Inr example_loaded \<and>
   dt_date (date (rows example_file ! 2)) = (2024, 3, 10) \<and>
   valid_timestamp (date (rows example_file ! 2)) \<and>
   dt_date (date (rows example_loaded ! 2)) = (2025, 3, 10) \<and>
   month (rows example_loaded ! 2) = ''March'' \<and>
   month_num (rows example_loaded ! 2) = 3"
proof -
  have cols: "''date'' \<in> set (map (\<lambda>name. str_strip (str_lower name)) (columns example_file))"
    by (simp add: example_file_def str_strip_def str_lower_def isspace_def)
  have i: "2 < length (rows example_file)"
    by (simp add: example_file_def)
  have d: "dt_date (date (rows example_file ! 2)) = (2024, 3, 10)"
    by (simp add: example_file_def session_def dt_date_def)
  from C4_date_shift [OF load_example_file cols i valid_example] d
  have "dt_date (date (rows example_loaded ! 2)) = (2025, 3, 10) \<and>
      month (rows example_loaded ! 2) = ''March'' \<and> month_num (rows example_loaded ! 2) = 3"
    by blast
  with load_example_file valid_example d show ?thesis
    by blast
qed

subsection \<open>Filtering\<close>

text \<open>
  C5. The filtered table holds rows of the table only, and a row of the table is in it
  if and only if its calendar date lies between the start and the end date, both
  included, and its game, device and area are among the selected ones. If one of the
  three selections is empty, no row is left. The time of day plays no part: setting
  every time of day to another value selects the same rows.
\<close>

theorem C5_filter:
  "set (filtered_df w df) \<subseteq> set df \<and>
   (\<forall>r \<in> set df.
      r \<in> set (filtered_df w df) \<longleftrightarrow>
        start_date w \<le> dt_date (date r) \<and> dt_date (date r) \<le> end_date w \<and>
        game r \<in> set (selected_game w) \<and> device r \<in> set (selected_device w) \<and>
        area r \<in> set (selected_area w)) \<and>
   (selected_game w = [] \<or> selected_device w = [] \<or> selected_area w = [] \<longrightarrow>
      filtered_df w df = []) \<and>
   filtered_df w (map (\<lambda>r. r\<lparr>date := (date r)\<lparr>dt_time := t\<rparr>\<rparr>) df) =
     map (\<lambda>r. r\<lparr>date := (date r)\<lparr>dt_time := t\<rparr>\<rparr>) (filtered_df w df)"
proof (intro conjI)
  show "set (filtered_df w df) \<subseteq> set df"
    by (simp add: filtered_df_filter)
  show "\<forall>r \<in> set df.
      r \<in> set (filtered_df w df) \<longleftrightarrow>
        start_date w \<le> dt_date (date r) \<and> dt_date (date r) \<le> end_date w \<and>
        game r \<in> set (selected_game w) \<and> device r \<in> set (selected_device w) \<and>
        area r \<in> set (selected_area w)"
    by (simp add: filtered_df_filter)
  show "selected_game w = [] \<or> selected_device w = [] \<or> selected_area w = [] \<longrightarrow>
      filtered_df w df = []"
    by (auto simp: filtered_df_filter)
  show "filtered_df w (map (\<lambda>r. r\<lparr>date := (date r)\<lparr>dt_time := t\<rparr>\<rparr>) df) =
     map (\<lambda>r. r\<lparr>date := (date r)\<lparr>dt_time := t\<rparr>\<rparr>) (filtered_df w df)"
    by (simp add: filtered_df_filter filter_map o_def dt_date_def)
qed

theorem C5_filter_witness:
  "session (2025, 3, 10) None (Some 5) None None \<in> set (rows example_loaded @ [session (2025, 3, 10) None (Some 5) None None]) \<and>
   session (2025, 3, 10) None (Some 5) None None
     \<notin> set (filtered_df example_sidebar (rows example_loaded @ [session (2025, 3, 10) None (Some 5) None None])) \<and>
   rows example_loaded ! 0
     \<in> set (filtered_df example_sidebar (rows example_loaded @ [session (2025, 3, 10) None (Some 5) None None]))"
proof -
  let ?r = "session (2025, 3, 10) None (Some 5) None None"
  let ?df = "rows example_loaded @ [?r]"
  have r: "?r \<in> set ?df" by simp
  have r0: "rows example_loaded ! 0 \<in> set ?df"
    by (simp add: example_loaded_def)
  have "device ?r \<notin> set (selected_device example_sidebar)"
    by (simp add: session_def example_sidebar_def)
  with C5_filter [of example_sidebar ?df 0] r have 1: "?r \<notin> set (filtered_df example_sidebar ?df)"
    by blast
  have "start_date example_sidebar \<le> dt_date (date (rows example_loaded ! 0)) \<and>
      dt_date (date (rows example_loaded ! 0)) \<le> end_date example_sidebar \<and>
      game (rows example_loaded ! 0) \<in> set (selected_game example_sidebar) \<and>
      device (rows example_loaded ! 0) \<in> set (selected_device example_sidebar) \<and>
      area (rows example_loaded ! 0) \<in> set (selected_area example_sidebar)"
    by (simp add: example_loaded_def session_def example_sidebar_def dt_date_def)
  with C5_filter [of example_sidebar ?df 0] r0
  have 2: "rows example_loaded ! 0 \<in> set (filtered_df example_sidebar ?df)"
    by blast
  from r 1 2 show ?thesis by blast
qed

text \<open>
  C6. Filtering the filtered table again with the same selections gives the same table,
  the same rows in the same order.
\<close>

theorem C6_filter_idempotent:
  "filtered_df w (filtered_df w df) = filtered_df w df"
  by (simp add: filtered_df_filter)

theorem C6_filter_idempotent_witness:
  "filtered_df example_sidebar (filtered_df example_sidebar (rows example_loaded)) =
     rows example_loaded"
  using C6_filter_idempotent [of example_sidebar "rows example_loaded"]
  by (simp add: filtered_example)

subsection \<open>Indicators\<close>

lemma count_list_pos_iff: "0 < count_list xs x \<longleftrightarrow> x \<in> set xs"
  by (induction xs) auto

lemma top_value:
  assumes "\<exists>x \<in> set col. x \<noteq> None"
  shows "\<exists>v. getitem0 (mode col) = Inr v \<and> Some v \<in> set col \<and>
           (\<forall>u. count_list col (Some u) \<le> count_list col (Some v)) \<and>
           (\<forall>u. count_list col (Some u) = count_list col (Some v) \<longrightarrow> v \<le> u)"
proof -
  from assms obtain x where "Some x \<in> set col" by auto
  from getitem0_mode [OF this] obtain v where v: "getitem0 (mode col) = Inr v"
    "Some v \<in> set col" "\<forall>u. count_list col (Some u) \<le> count_list col (Some v)"
    and least: "\<forall>u. Some u \<in> set col \<and> count_list col (Some u) = count_list col (Some v) \<longrightarrow> v \<le> u"
    by blast
  have "v \<le> u" if "count_list col (Some u) = count_list col (Some v)" for u
  proof -
    from v(2) have "0 < count_list col (Some v)"
      by (simp add: count_list_pos_iff)
    with that have "Some u \<in> set col"
      by (simp add: count_list_pos_iff [symmetric])
    with that least show ?thesis by blast
  qed
  with v show ?thesis by blast
qed

text \<open>
  C1, amended. For every filtered table with a game that is not missing, \<^verbatim>\<open>top_game\<close> is a
  value of the game column of maximal frequency among the values that are not missing,
  and when several values share the maximal frequency it is the least of them in the
  order of strings (the library returns the modes sorted), wherever they stand in the
  table; likewise \<^verbatim>\<open>top_device\<close> for the device column. For the games A, B, A, B in
  that row order, \<^verbatim>\<open>top_game\<close> is A.
\<close>

theorem C1_top_value:
  "((\<exists>r \<in> set fdf. game r \<noteq> None) \<longrightarrow>
      (\<exists>v. top_game fdf = Inr v \<and> Some v \<in> set (map game fdf) \<and>
         (\<forall>u. count_list (map game fdf) (Some u) \<le> count_list (map game fdf) (Some v)) \<and>
         (\<forall>u. count_list (map game fdf) (Some u) = count_list (map game fdf) (Some v)
              \<longrightarrow> v \<le> u))) \<and>
   ((\<exists>r \<in> set fdf. device r \<noteq> None) \<longrightarrow>
      (\<exists>v. top_device fdf = Inr v \<and> Some v \<in> set (map device fdf) \<and>
         (\<forall>u. count_list (map device fdf) (Some u) \<le> count_list (map device fdf) (Some v)) \<and>
         (\<forall>u. count_list (map device fdf) (Some u) = count_list (map device fdf) (Some v)
              \<longrightarrow> v \<le> u))) \<and>
   (map game fdf = [Some ''A'', Some ''B'', Some ''A'', Some ''B''] \<longrightarrow>
      top_game fdf = Inr ''A'')"
proof (intro conjI impI)
  assume "\<exists>r \<in> set fdf. game r \<noteq> None"
  then have "\<exists>x \<in> set (map game fdf). x \<noteq> None" and "fdf \<noteq> []"
    by auto
  with top_value [of "map game fdf"]
  show "\<exists>v. top_game fdf = Inr v \<and> Some v \<in> set (map game fdf) \<and>
         (\<forall>u. count_list (map game fdf) (Some u) \<le> count_list (map game fdf) (Some v)) \<and>
         (\<forall>u. count_list (map game fdf) (Some u) = count_list (map game fdf) (Some v)
              \<longrightarrow> v \<le> u)"
    by (simp add: top_game_def)
next
  assume "\<exists>r \<in> set fdf. device r \<noteq> None"
  then have "\<exists>x \<in> set (map device fdf). x \<noteq> None" and "fdf \<noteq> []"
    by auto
  with top_value [of "map device fdf"]
  show "\<exists>v. top_device fdf = Inr v \<and> Some v \<in> set (map device fdf) \<and>
         (\<forall>u. count_list (map device fdf) (Some u) \<le> count_list (map device fdf) (Some v)) \<and>
         (\<forall>u. count_list (map device fdf) (Some u) = count_list (map device fdf) (Some v)
              \<longrightarrow> v \<le> u)"
    by (simp add: top_device_def)
next
  assume g: "map game fdf = [Some ''A'', Some ''B'', Some ''A'', Some ''B'']"
  then have "fdf \<noteq> []" by auto
  then show "top_game fdf = Inr ''A''"
    by (simp add: top_game_def g mode_def counts_def unique_def getitem0_def)
qed

lemma game_game_rows: "map game (game_rows gs) = map Some gs"
  by (simp add: game_rows_def session_def)

lemma device_game_rows: "map device (game_rows gs) = map (\<lambda>g. Some ''Bioness Left 1'') gs"
  by (simp add: game_rows_def session_def)

lemma game_rows_Nil: "game_rows gs = [] \<longleftrightarrow> gs = []"
  by (simp add: game_rows_def)

theorem C1_top_value_witness:
  "map game (game_rows [''A'', ''B'', ''A'', ''B'']) = [Some ''A'', Some ''B'', Some ''A'', Some ''B''] \<and>
   top_game (game_rows [''A'', ''B'', ''A'', ''B'']) = Inr ''A'' \<and>
   Some ''Bioness Left 1'' \<in> set (map device (game_rows [''A'', ''B'', ''A'', ''B''])) \<and>
   top_device (game_rows [''A'', ''B'', ''A'', ''B'']) = Inr ''Bioness Left 1'' \<and>
   count_list (map game (game_rows [''A'', ''B'', ''A'', ''B''])) (Some ''A'') = 2 \<and>
   count_list (map game (game_rows [''A'', ''B'', ''A'', ''B''])) (Some ''B'') = 2"
proof -
  let ?fdf = "game_rows [''A'', ''B'', ''A'', ''B'']"
  have g: "map game ?fdf = [Some ''A'', Some ''B'', Some ''A'', Some ''B'']"
    by (simp add: game_game_rows)
  have h: "\<exists>r \<in> set ?fdf. game r \<noteq> None"
    by (simp add: game_rows_def session_def)
  have h': "\<exists>r \<in> set ?fdf. device r \<noteq> None"
    by (simp add: game_rows_def session_def)
  from C1_top_value [of ?fdf] g have "top_game ?fdf = Inr ''A''"
    by blast
  moreover from C1_top_value [of ?fdf] h' obtain v where
    "top_device ?fdf = Inr v" "Some v \<in> set (map device ?fdf)"
    by blast
  then have "top_device ?fdf = Inr ''Bioness Left 1''"
    by (auto simp: device_game_rows)
  moreover have "Some ''Bioness Left 1'' \<in> set (map device ?fdf)"
    by (simp add: device_game_rows)
  moreover have "count_list (map game ?fdf) (Some ''A'') = 2"
    and "count_list (map game ?fdf) (Some ''B'') = 2"
    unfolding g by simp_all
  ultimately show ?thesis
    using g by blast
qed

text \<open>
  The claim as first stated fails: for the games B, A, B, A the first value of maximal
  frequency in row order is B, and \<^verbatim>\<open>top_game\<close> is A.
\<close>

theorem C1_counterexample:
  "map game (game_rows [''B'', ''A'', ''B'', ''A'']) = [Some ''B'', Some ''A'', Some ''B'', Some ''A''] \<and>
   spec_top (map game (game_rows [''B'', ''A'', ''B'', ''A''])) = Some (Some ''B'') \<and>
   top_game (game_rows [''B'', ''A'', ''B'', ''A'']) = Inr ''A'' \<and>
   top_game (game_rows [''B'', ''A'', ''B'', ''A'']) \<noteq> Inr ''B''"
  by (simp add: game_game_rows game_rows_Nil spec_top_def top_game_def mode_def counts_def
      unique_def getitem0_def)

lemma show_dashboard_Nil:
  "show_dashboard fp [] =
     Inr \<lparr>kpi1 = 0, kpi2 = NaN, kpi3 = ''N/A'', kpi4 = ''N/A'',
          fig_dur = [], fig_game = [], fig_device = []\<rparr>"
  by (simp add: show_dashboard_def top_game_def top_device_def total_duration_def
      avg_duration_def mean_def monthly_dur_def game_counts_def device_counts_def
      value_counts_def counts_def unique_def)

text \<open>
  C2. On the empty filtered table the number of sessions is 0 and \<^verbatim>\<open>top_game\<close> and
  \<^verbatim>\<open>top_device\<close> are \<^verbatim>\<open>N/A\<close>. The average duration is NaN, and the indicator shows it
  formatted as \<^verbatim>\<open>nan\<close>: the guard of line 110 that gives \<^verbatim>\<open>N/A\<close> to the two top
  values does not cover the average. The example sheet with no game selected is such a
  run.
\<close>

theorem C2_empty_table:
  "total_sessions [] = 0 \<and> avg_duration fp [] = NaN \<and>
   format_1f digits (avg_duration fp []) = ''nan'' \<and>
   format_1f digits (avg_duration fp []) \<noteq> ''N/A'' \<and>
   top_game [] = Inr ''N/A'' \<and> top_device [] = Inr ''N/A'' \<and>
   show_dashboard fp [] =
     Inr \<lparr>kpi1 = 0, kpi2 = NaN, kpi3 = ''N/A'', kpi4 = ''N/A'',
          fig_dur = [], fig_game = [], fig_device = []\<rparr> \<and>
   filtered_df (example_sidebar\<lparr>selected_game := []\<rparr>) (rows example_loaded) = [] \<and>
   script fp example_file (example_sidebar\<lparr>selected_game := []\<rparr>) =
     Inr \<lparr>kpi1 = 0, kpi2 = NaN, kpi3 = ''N/A'', kpi4 = ''N/A'',
          fig_dur = [], fig_game = [], fig_device = []\<rparr>"
proof -
  have f: "filtered_df (example_sidebar\<lparr>selected_game := []\<rparr>) (rows example_loaded) = []"
    by (simp add: filtered_df_filter)
  have c: "columns example_loaded =
      [''date'', ''game'', ''duration_minutes'', ''device'', ''area'', ''month'', ''month_num'']"
    by (simp add: example_loaded_def)
  have s: "script fp example_file (example_sidebar\<lparr>selected_game := []\<rparr>) =
     Inr \<lparr>kpi1 = 0, kpi2 = NaN, kpi3 = ''N/A'', kpi4 = ''N/A'',
          fig_dur = [], fig_game = [], fig_device = []\<rparr>"
    by (simp add: script_def load_example_file required_cols_def c f show_dashboard_Nil)
  have "total_sessions [] = 0" and "avg_duration fp [] = NaN"
    and "format_1f digits (avg_duration fp []) = ''nan''"
    and "top_game [] = Inr ''N/A''" and "top_device [] = Inr ''N/A''"
    by (simp_all add: total_sessions_def avg_duration_def mean_def format_1f_def top_game_def
        top_device_def)
  with f s show_dashboard_Nil [of fp] show ?thesis
    by simp
qed

subsection \<open>Charts\<close>











lemma apply_clean_device_name_Some:
  "apply_clean_device_name rs = Inr rs' \<Longrightarrow> \<forall>r \<in> set rs'. device r \<noteq> None"
  by (induction rs arbitrary: rs') (auto split: option.splits sum.splits)

lemma load_data_device:
  assumes "load_data file = Inr df" and "''device'' \<in> set (columns df)"
  shows "\<forall>r \<in> set (rows df). device r \<noteq> None"
proof -
  define cols where "cols = map (\<lambda>name. str_strip (str_lower name)) (columns file)"
  have "''device'' \<in> set cols"
    using assms
    by (auto simp: load_data_def Let_def cols_def setitem_column_def
        split: if_splits sum.splits)
  then obtain rs rs' where "apply_clean_device_name rs = Inr rs'" "rows df = rs'"
    using assms(1)
    by (auto simp: load_data_def Let_def cols_def setitem_column_def
        split: if_splits sum.splits)
  then show ?thesis
    using apply_clean_device_name_Some by blast
qed

lemma filtered_df_subset: "set (filtered_df w df) \<subseteq> set df"
  by (simp add: filtered_df_filter)

text \<open>
  C9, amended. For every filtered table, the counts of \<^verbatim>\<open>game_counts\<close> add up to the
  number of rows whose game is not missing, and the counts of \<^verbatim>\<open>device_counts\<close> to the
  number of rows whose device is not missing; each sum is the number of sessions when
  the column has no missing value, as the device column of a loaded table never has.
\<close>

theorem C9_counts_sum:
  "sum_list (map snd (game_counts fdf)) = length (filter (\<lambda>r. game r \<noteq> None) fdf) \<and>
   sum_list (map snd (device_counts fdf)) = length (filter (\<lambda>r. device r \<noteq> None) fdf) \<and>
   ((\<forall>r \<in> set fdf. game r \<noteq> None) \<longrightarrow>
      sum_list (map snd (game_counts fdf)) = total_sessions fdf) \<and>
   ((\<forall>r \<in> set fdf. device r \<noteq> None) \<longrightarrow>
      sum_list (map snd (device_counts fdf)) = total_sessions fdf) \<and>
   (load_data file = Inr df \<and> ''device'' \<in> set (columns df) \<longrightarrow>
      sum_list (map snd (device_counts (filtered_df w (rows df)))) =
        total_sessions (filtered_df w (rows df)))"
proof -
  have g: "sum_list (map snd (game_counts rs)) = length (filter (\<lambda>r. game r \<noteq> None) rs)" for rs
    by (simp add: game_counts_def sum_value_counts filter_map o_def)
  have d: "sum_list (map snd (device_counts rs)) = length (filter (\<lambda>r. device r \<noteq> None) rs)" for rs
    by (simp add: device_counts_def sum_value_counts filter_map o_def)
  have all: "length (filter P rs) = length rs" if "\<forall>r \<in> set rs. P r" for P and rs :: "row list"
    using that by (induction rs) auto
  have "sum_list (map snd (device_counts (filtered_df w (rows df)))) =
        total_sessions (filtered_df w (rows df))"
    if "load_data file = Inr df" and "''device'' \<in> set (columns df)"
  proof -
    from load_data_device [OF that] filtered_df_subset
    have "\<forall>r \<in> set (filtered_df w (rows df)). device r \<noteq> None"
      by blast
    then show ?thesis
      by (simp add: d all total_sessions_def)
  qed
  then show ?thesis
    by (simp add: g d all total_sessions_def)
qed

theorem C9_counts_sum_witness:
  "None \<notin> set (map game (game_rows [''A'', ''B'', ''A'', ''B''])) \<and>
   None \<notin> set (map device (game_rows [''A'', ''B'', ''A'', ''B''])) \<and>
   sum_list (map snd (game_counts (game_rows [''A'', ''B'', ''A'', ''B'']))) = 4 \<and>
   sum_list (map snd (device_counts (game_rows [''A'', ''B'', ''A'', ''B'']))) = 4 \<and>
   load_data example_file = Inr example_loaded \<and> ''device'' \<in> set (columns example_loaded) \<and>
   sum_list (map snd (device_counts (filtered_df example_sidebar (rows example_loaded)))) = 4"
proof -
  let ?fdf = "game_rows [''A'', ''B'', ''A'', ''B'']"
  have g: "None \<notin> set (map game ?fdf)" and d: "None \<notin> set (map device ?fdf)"
    by (simp_all add: game_game_rows device_game_rows)
  have g': "\<forall>r \<in> set ?fdf. game r \<noteq> None" and d': "\<forall>r \<in> set ?fdf. device r \<noteq> None"
    by (simp_all add: game_rows_def session_def)
  have n: "total_sessions ?fdf = 4"
    by (simp add: total_sessions_def game_rows_def)
  have c: "''device'' \<in> set (columns example_loaded)"
    by (simp add: example_loaded_def)
  have "length (rows example_loaded) = 4"
    by (simp add: example_loaded_def)
  then have m: "total_sessions (filtered_df example_sidebar (rows example_loaded)) = 4"
    by (simp add: filtered_example total_sessions_def)
  from C9_counts_sum [of ?fdf example_file example_loaded example_sidebar]
    g' d' load_example_file c
  have "sum_list (map snd (game_counts ?fdf)) = total_sessions ?fdf"
    and "sum_list (map snd (device_counts ?fdf)) = total_sessions ?fdf"
    and "sum_list (map snd (device_counts (filtered_df example_sidebar (rows example_loaded)))) =
        total_sessions (filtered_df example_sidebar (rows example_loaded))"
    by blast+
  with g d n c m load_example_file show ?thesis
    by simp
qed

text \<open>
  The claim as first stated fails: the fourth session of the example has no game, it
  passes the filter because the missing value is among the selected games, and it is
  counted as a session but in no group of the games.
\<close>

theorem C9_counterexample:
  "load_data example_file = Inr example_loaded \<and>
   total_sessions (filtered_df example_sidebar (rows example_loaded)) = 4 \<and>
   sum_list (map snd (game_counts (filtered_df example_sidebar (rows example_loaded)))) = 3 \<and>
   sum_list (map snd (game_counts (filtered_df example_sidebar (rows example_loaded)))) \<noteq>
     total_sessions (filtered_df example_sidebar (rows example_loaded))"
proof -
  have "length (rows example_loaded) = 4"
    by (simp add: example_loaded_def)
  then have n: "total_sessions (filtered_df example_sidebar (rows example_loaded)) = 4"
    by (simp add: filtered_example total_sessions_def)
  have "map game (rows example_loaded) = [Some ''A'', Some ''B'', Some ''A'', None]"
    by (simp add: example_loaded_def session_def)
  then have "game_counts (rows example_loaded) = [(''A'', 2), (''B'', 1)]"
    by (simp add: game_counts_def value_counts_def counts_def unique_def)
  then have c: "sum_list (map snd (game_counts (filtered_df example_sidebar (rows example_loaded)))) = 3"
    by (simp add: filtered_example)
  from load_example_file n c show ?thesis
    by simp
qed

subsection \<open>The required columns\<close>

lemma show_dashboard_not_Stop: "show_dashboard fp fdf \<noteq> Inl Stop"
  by (auto simp: show_dashboard_def top_game_def top_device_def getitem0_def
      split: sum.splits list.splits if_splits)

lemma load_data_columns:
  assumes "load_data file = Inr df"
  shows "columns df =
     (let cols = map (\<lambda>name. str_strip (str_lower name)) (columns file)
      in if ''date'' \<in> set cols
         then setitem_column ''month_num'' (setitem_column ''month'' cols) else cols)"
  using assms by (auto simp: load_data_def Let_def split: if_splits sum.splits)

lemma set_setitem_column: "set (setitem_column name cols) = insert name (set cols)"
  by (auto simp: setitem_column_def)

text \<open>
  C8. For a loaded sheet whose normalised column names lack \<^verbatim>\<open>date\<close> or
  \<^verbatim>\<open>duration_minutes\<close>, the run ends at the check of the required columns with the
  blocking message: it yields no dashboard, so no filter, indicator or chart is computed.
  The run ends there in no other case.
\<close>

theorem C8_required_columns:
  assumes "load_data file = Inr df"
  shows "((''date'' \<notin> set (columns df) \<or> ''duration_minutes'' \<notin> set (columns df)) \<longleftrightarrow>
           script fp file w = Inl Stop) \<and>
     (''date'' \<notin> set (map (\<lambda>name. str_strip (str_lower name)) (columns file)) \<or>
      ''duration_minutes'' \<notin> set (map (\<lambda>name. str_strip (str_lower name)) (columns file))
        \<longrightarrow> script fp file w = Inl Stop)"
proof -
  have 1: "script fp file w = Inl Stop"
    if "''date'' \<notin> set (columns df) \<or> ''duration_minutes'' \<notin> set (columns df)"
    using that assms by (auto simp: script_def required_cols_def)
  have 2: "''date'' \<notin> set (columns df) \<or> ''duration_minutes'' \<notin> set (columns df)"
    if "script fp file w = Inl Stop"
    using that assms show_dashboard_not_Stop
    by (auto simp: script_def required_cols_def split: if_splits)
  have 3: "''date'' \<notin> set (columns df) \<or> ''duration_minutes'' \<notin> set (columns df)"
    if "''date'' \<notin> set (map (\<lambda>name. str_strip (str_lower name)) (columns file)) \<or>
      ''duration_minutes'' \<notin> set (map (\<lambda>name. str_strip (str_lower name)) (columns file))"
    using that load_data_columns [OF assms]
    by (auto simp: Let_def set_setitem_column split: if_splits)
  from 1 2 3 show ?thesis by blast
qed

lemma load_incomplete_file: "load_data incomplete_file = Inr incomplete_loaded"
  by (simp add: incomplete_file_def incomplete_loaded_def example_file_def example_loaded_def
      session_def load_defs)

theorem C8_required_columns_witness:
  "load_data incomplete_file = Inr incomplete_loaded \<and>
   ''duration_minutes'' \<notin> set (columns incomplete_loaded) \<and>
   ''duration_minutes'' \<notin> set (map (\<lambda>name. str_strip (str_lower name)) (columns incomplete_file)) \<and>
   script exact incomplete_file example_sidebar = Inl Stop"
proof -
  have 1: "''duration_minutes'' \<notin> set (columns incomplete_loaded)"
    by (simp add: incomplete_loaded_def)
  have 2: "''duration_minutes'' \<notin> set (map (\<lambda>name. str_strip (str_lower name)) (columns incomplete_file))"
    by (simp add: incomplete_file_def str_strip_def str_lower_def isspace_def)
  from C8_required_columns [OF load_incomplete_file, of exact example_sidebar] 1
  have "script exact incomplete_file example_sidebar = Inl Stop"
    by blast
  with load_incomplete_file 1 2 show ?thesis
    by blast
qed

end
